theory Spec2Isabelle
  imports Complex_Main "HOL-Library.Char_ord"
begin

section \<open>Data frames of the ETL pipeline\<close>

text \<open>
  The pipeline of \<^verbatim>\<open>etl_pipeline.py\<close> works on three pandas data frames. A frame is
  modelled as the list of its rows in index order; a cell that pandas holds as NaN (an empty
  CSV field) is \<open>None\<close>, a text cell is \<open>Some s\<close>. Strings are HOL strings, read as ASCII
  text. Two records with a field of the same name cannot live in one theory, so the product's
  name column is \<open>pname\<close> and the transaction's foreign keys are \<open>t_customer_id\<close> and
  \<open>t_product_id\<close>.

  Each column is taken to have the dtype pandas gives it when the file holds at least one
  well-formed value in it: text columns hold text and the validated date column is a datetime
  column. The one accessor error the rule chains can reach on such files, the \<^verbatim>\<open>.dt\<close>
  accessor on a date column without any date, is in the model; the accessor errors pandas
  raises on other dtypes, and the KeyError for a column other than \<^verbatim>\<open>name\<close> that is
  missing, are outside it.
\<close>

text \<open>The exceptions a run can end in.\<close>

datatype error =
    ConnectError
  | ExtractError
  | AttributeError
  | IntegrityError
  | OverflowError
  | KeyError string

record customer =
  customer_id :: "string option"
  name :: "string option"
  email :: "string option"

text \<open>
  \<^verbatim>\<open>transform_customers\<close> asks whether the frame has a \<^verbatim>\<open>name\<close> column at all, so the
  customers frame carries that bit; when it is off the \<open>name\<close> field of the rows is not read.
\<close>

record customers_df =
  has_name :: bool
  rows :: "customer list"

subsection \<open>Bulk operations of pandas used by the transformers\<close>

text \<open>
  \<^verbatim>\<open>df.drop_duplicates(subset=key, keep='first')\<close>: a row is dropped when an earlier row
  of the frame has the same key; NaN keys count as equal to each other, which \<open>None = None\<close>
  gives.
\<close>

fun drop_duplicates_from :: "('r \<Rightarrow> 'k) \<Rightarrow> 'k list \<Rightarrow> 'r list \<Rightarrow> 'r list" where
  "drop_duplicates_from key seen [] = []"
| "drop_duplicates_from key seen (r # rs) =
     (if key r \<in> set seen then drop_duplicates_from key seen rs
      else r # drop_duplicates_from key (key r # seen) rs)"

definition drop_duplicates :: "('r \<Rightarrow> 'k) \<Rightarrow> 'r list \<Rightarrow> 'r list" where
  "drop_duplicates key rs = drop_duplicates_from key [] rs"

text \<open>\<^verbatim>\<open>df.dropna(subset=[col])\<close>: rows whose cell in that column is NaN are dropped.\<close>

definition dropna :: "('r \<Rightarrow> 'c option) \<Rightarrow> 'r list \<Rightarrow> 'r list" where
  "dropna col rs = filter (\<lambda>r. col r \<noteq> None) rs"

subsection \<open>Regular expressions as \<^verbatim>\<open>re.match\<close> runs them\<close>

text \<open>
  The email pattern is a sequence of items: the anchors \<^verbatim>\<open>^\<close> and \<^verbatim>\<open>$\<close>, a literal
  character, a character class repeated once or more (\<^verbatim>\<open>[..]+\<close>) and a class repeated
  at least n times (\<^verbatim>\<open>[..]{n,}\<close>). \<^verbatim>\<open>Series.str.match\<close> calls \<^verbatim>\<open>re.match\<close>, which matches
  at the start of the string. A matcher state is the number of characters consumed and the rest
  of the input; an item maps a state to all states it can leave behind, so backtracking is the
  list of alternatives. Without the MULTILINE flag, \<^verbatim>\<open>$\<close> holds at the end of the string
  and also just before a line feed that ends the string.
\<close>

datatype regex_item =
    Bol
  | Eol
  | Lit char
  | Plus "char \<Rightarrow> bool"
  | AtLeast nat "char \<Rightarrow> bool"

definition line_feed :: char where
  "line_feed = CHR 0x0A"

fun many :: "(char \<Rightarrow> bool) \<Rightarrow> string \<Rightarrow> string list" where
  "many cls [] = [[]]"
| "many cls (c # cs) = (c # cs) # (if cls c then many cls cs else [])"

fun at_least :: "nat \<Rightarrow> (char \<Rightarrow> bool) \<Rightarrow> string \<Rightarrow> string list" where
  "at_least 0 cls s = many cls s"
| "at_least (Suc n) cls [] = []"
| "at_least (Suc n) cls (c # cs) = (if cls c then at_least n cls cs else [])"

fun step :: "regex_item \<Rightarrow> nat \<times> string \<Rightarrow> (nat \<times> string) list" where
  "step Bol (pos, s) = (if pos = 0 then [(pos, s)] else [])"
| "step Eol (pos, s) = (if s = [] \<or> s = [line_feed] then [(pos, s)] else [])"
| "step (Lit c) (pos, s) =
     (case s of [] \<Rightarrow> [] | x # t \<Rightarrow> if x = c then [(Suc pos, t)] else [])"
| "step (Plus cls) (pos, s) =
     map (\<lambda>t. (pos + (length s - length t), t)) (at_least 1 cls s)"
| "step (AtLeast n cls) (pos, s) =
     map (\<lambda>t. (pos + (length s - length t), t)) (at_least n cls s)"

fun run :: "regex_item list \<Rightarrow> (nat \<times> string) list \<Rightarrow> (nat \<times> string) list" where
  "run [] sts = sts"
| "run (it # its) sts = run its (concat (map (step it) sts))"

definition re_match :: "regex_item list \<Rightarrow> string \<Rightarrow> bool" where
  "re_match pat s = (run pat [(0, s)] \<noteq> [])"

subsection \<open>Character classes\<close>

definition lower_letter :: "char \<Rightarrow> bool" where
  "lower_letter c = (CHR ''a'' \<le> c \<and> c \<le> CHR ''z'')"

definition upper_letter :: "char \<Rightarrow> bool" where
  "upper_letter c = (CHR ''A'' \<le> c \<and> c \<le> CHR ''Z'')"

definition digit :: "char \<Rightarrow> bool" where
  "digit c = (CHR ''0'' \<le> c \<and> c \<le> CHR ''9'')"

text \<open>\<^verbatim>\<open>[a-zA-Z]\<close>, \<^verbatim>\<open>[a-zA-Z0-9._%+-]\<close> and \<^verbatim>\<open>[a-zA-Z0-9.-]\<close>.\<close>

definition letter :: "char \<Rightarrow> bool" where
  "letter c = (lower_letter c \<or> upper_letter c)"

definition local_char :: "char \<Rightarrow> bool" where
  "local_char c = (letter c \<or> digit c \<or> c \<in> set ''._%+-'')"

definition domain_char :: "char \<Rightarrow> bool" where
  "domain_char c = (letter c \<or> digit c \<or> c \<in> set ''.-'')"

section \<open>The Customer transformer\<close>

definition invalid_patterns :: "string list" where
  "invalid_patterns =
    [''invalid_email'', ''user@.com'', ''user@'', ''@example.com'',
     ''user..name@example.com'', ''user name@example.com'', ''user@example..com'',
     ''user@.example.com'', ''user@example.com.'', ''user@-example.com'',
     ''user@example-.com'']"

text \<open>\<^verbatim>\<open>^[a-zA-Z0-9._%+-]+@[a-zA-Z0-9.-]+\.[a-zA-Z]{2,}$\<close>\<close>

definition email_pattern :: "regex_item list" where
  "email_pattern =
    [Bol, Plus local_char, Lit CHR ''@'', Plus domain_char, Lit CHR ''.'',
     AtLeast 2 letter, Eol]"

text \<open>\<^verbatim>\<open>~df['email'].isin(invalid_patterns)\<close> on one cell; NaN is in no list of strings.\<close>

definition not_blacklisted :: "string option \<Rightarrow> bool" where
  "not_blacklisted e = (case e of None \<Rightarrow> True | Some s \<Rightarrow> s \<notin> set invalid_patterns)"

text \<open>\<^verbatim>\<open>df['email'].str.match(email_pattern, na=False)\<close> on one cell.\<close>

definition str_match :: "regex_item list \<Rightarrow> string option \<Rightarrow> bool" where
  "str_match pat e = (case e of None \<Rightarrow> False | Some s \<Rightarrow> re_match pat s)"

text \<open>
  The three email filters of lines 88 to 100 on one cell, and the default of lines 109-110 on
  one row; \<^verbatim>\<open>transform_customers\<close> below applies them frame by frame.
\<close>

definition passes_email_checks :: "string option \<Rightarrow> bool" where
  "passes_email_checks e = (e \<noteq> None \<and> not_blacklisted e \<and> str_match email_pattern e)"

definition default_name :: "customers_df \<Rightarrow> customer \<Rightarrow> customer" where
  "default_name df r = (if \<not> has_name df then r\<lparr>name := Some ''Unknown''\<rparr> else r)"

text \<open>
  The rule chain of \<^verbatim>\<open>transform_customers\<close>, in the order of the source: drop NaN emails,
  drop blacklisted emails, keep emails that match the pattern, deduplicate by email, then by
  customer id, and add the \<^verbatim>\<open>name\<close> column with the value \<^verbatim>\<open>Unknown\<close> when the frame has none.
\<close>

definition transform_customers :: "customers_df \<Rightarrow> customers_df" where
  "transform_customers df =
    (let rs1 = dropna email (rows df);
         rs2 = filter (\<lambda>r. not_blacklisted (email r)) rs1;
         rs3 = filter (\<lambda>r. str_match email_pattern (email r)) rs2;
         rs4 = drop_duplicates email rs3;
         rs5 = drop_duplicates customer_id rs4;
         rs6 = map (default_name df) rs5
     in \<lparr>has_name = True, rows = rs6\<rparr>)"


section \<open>The Product transformer\<close>

text \<open>
  A cell of a numeric column before coercion: NaN, a number that \<^verbatim>\<open>read_csv\<close> already parsed,
  or text. A finite float64 is modelled by the rational number it denotes; the comparisons of
  the pipeline are against 0 and 10000, which floats represent exactly. \<^verbatim>\<open>pd.to_numeric\<close>
  with \<^verbatim>\<open>errors='coerce'\<close> turns text into a number or NaN; how pandas reads a number out
  of text is a parameter \<open>pf\<close> of the model (\<open>None\<close> where the text does not parse; an
  infinity is dropped by the range filter like NaN is by \<^verbatim>\<open>dropna\<close>, so it is \<open>None\<close> too).
\<close>

datatype cell = NaN | Num rat | Str string

record 'p product =
  product_id :: "int option"
  pname :: "string option"
  category :: "string option"
  price :: 'p

definition to_numeric :: "(string \<Rightarrow> rat option) \<Rightarrow> cell \<Rightarrow> rat option" where
  "to_numeric pf c = (case c of NaN \<Rightarrow> None | Num v \<Rightarrow> Some v | Str s \<Rightarrow> pf s)"

text \<open>\<^verbatim>\<open>(col > 0) & (col <= 10000)\<close> on one cell; every comparison with NaN is false.\<close>

definition in_range :: "rat option \<Rightarrow> bool" where
  "in_range v = (case v of None \<Rightarrow> False | Some x \<Rightarrow> 0 < x \<and> x \<le> 10000)"

definition category_mapping :: "(string \<times> string) list" where
  "category_mapping =
    [(''electronics'', ''Electronics''),
     (''ELECTRONICS'', ''Electronics''),
     (''books'', ''Books''),
     (''BOOKS'', ''Books''),
     (''home'', ''Home''),
     (''HOME'', ''Home'')]"

text \<open>\<^verbatim>\<open>str.lower\<close> on ASCII text, and the three column operations of the category line.\<close>

definition lower_char :: "char \<Rightarrow> char" where
  "lower_char c = (if upper_letter c then char_of (of_char c + (32::nat)) else c)"

definition str_lower :: "string option \<Rightarrow> string option" where
  "str_lower c = map_option (map lower_char) c"

definition map_dict :: "(string \<times> string) list \<Rightarrow> string option \<Rightarrow> string option" where
  "map_dict d c = (case c of None \<Rightarrow> None | Some s \<Rightarrow> map_of d s)"

definition fillna :: "'a option \<Rightarrow> 'a option \<Rightarrow> 'a option" where
  "fillna c other = (case c of None \<Rightarrow> other | Some v \<Rightarrow> Some v)"

text \<open>\<^verbatim>\<open>df['category'].str.lower().map(category_mapping).fillna(df['category'])\<close> on one cell.\<close>

definition normalize_category :: "string option \<Rightarrow> string option" where
  "normalize_category c = fillna (map_dict category_mapping (str_lower c)) c"

definition transform_products ::
  "(string \<Rightarrow> rat option) \<Rightarrow> cell product list \<Rightarrow> rat option product list" where
  "transform_products pf df =
    (let rs1 = map (\<lambda>r. r\<lparr>category := normalize_category (category r)\<rparr>) df;
         rs2 = drop_duplicates product_id rs1;
         rs3 = drop_duplicates (\<lambda>r. (pname r, category r)) rs2;
         rs4 = map (\<lambda>r. \<lparr>product_id = product_id r, pname = pname r,
                          category = category r, price = to_numeric pf (price r)\<rparr>) rs3;
         rs5 = dropna price rs4
     in filter (\<lambda>r. in_range (price r)) rs5)"

section \<open>The Transaction transformer\<close>

text \<open>
  The row type is polymorphic in the date and amount columns, which change type on the way:
  the date is text, then a timestamp, then text again; the amount is a raw cell, then a number.
  The column \<^verbatim>\<open>date\<close> is renamed \<^verbatim>\<open>transaction_date\<close> at the end; the field keeps its
  name here.
\<close>

record ('d, 'a) "transaction" =
  transaction_id :: "string option"
  t_customer_id :: "string option"
  t_product_id :: "int option"
  amount :: 'a
  date :: 'd

text \<open>A \<^verbatim>\<open>pd.Timestamp\<close>: calendar fields and the time of day in nanoseconds.\<close>

record timestamp =
  year :: nat
  month :: nat
  day :: nat
  time_ns :: nat

definition leap_year :: "nat \<Rightarrow> bool" where
  "leap_year y = (y mod 4 = 0 \<and> (y mod 100 \<noteq> 0 \<or> y mod 400 = 0))"

definition days_in_month :: "nat \<Rightarrow> nat \<Rightarrow> nat" where
  "days_in_month y m =
    (if m = 2 then (if leap_year y then 29 else 28)
     else if m = 4 \<or> m = 6 \<or> m = 9 \<or> m = 11 then 30 else 31)"

definition real_calendar_date :: "nat \<Rightarrow> nat \<Rightarrow> nat \<Rightarrow> bool" where
  "real_calendar_date y m d = (1 \<le> y \<and> 1 \<le> m \<and> m \<le> 12 \<and> 1 \<le> d \<and> d \<le> days_in_month y m)"

text \<open>The number a text of decimal digits denotes, and a text of the shape YYYY-MM-DD.\<close>

definition undec :: "string \<Rightarrow> nat" where
  "undec s = fold (\<lambda>c n. 10 * n + (of_char c - 48)) s 0"

definition parse_iso :: "string \<Rightarrow> (nat \<times> nat \<times> nat) option" where
  "parse_iso s =
    (if length s = 10 \<and> s ! 4 = CHR ''-'' \<and> s ! 7 = CHR ''-''
        \<and> list_all digit (take 4 s) \<and> list_all digit (take 2 (drop 5 s))
        \<and> list_all digit (drop 8 s)
     then Some (undec (take 4 s), undec (take 2 (drop 5 s)), undec (drop 8 s))
     else None)"

text \<open>
  Modelled from the spec: \<^verbatim>\<open>pd.to_datetime(s, errors='coerce')\<close> is pandas' flexible date
  parser, which is not part of the repository. The specification says of it that a text
  which is no real calendar date (February 30, April 31) does not parse, and that the canonical
  text \<^verbatim>\<open>2024-01-15\<close> is that date. So: a text of the shape YYYY-MM-DD parses to its date
  at midnight when that is a real calendar date (within the years a nanosecond timestamp
  covers) and does not parse when it is not; what the parser makes of any other text is the
  parameter \<open>flex\<close> of the model, of which only real calendar dates count, since a
  timestamp is always one. \<open>None\<close> is NaT, or an exception, which \<^verbatim>\<open>validate_date\<close>
  catches.
\<close>

definition flexible :: "(string \<Rightarrow> timestamp option) \<Rightarrow> string \<Rightarrow> timestamp option" where
  "flexible flex s =
    (case flex s of
       None \<Rightarrow> None
     | Some t \<Rightarrow> if real_calendar_date (year t) (month t) (day t) then Some t else None)"

definition to_datetime :: "(string \<Rightarrow> timestamp option) \<Rightarrow> string \<Rightarrow> timestamp option" where
  "to_datetime flex s =
    (case parse_iso s of
       None \<Rightarrow> flexible flex s
     | Some (y, m, d) \<Rightarrow>
         if real_calendar_date y m d
         then (if 1678 \<le> y \<and> y \<le> 2261
               then Some \<lparr>year = y, month = m, day = d, time_ns = 0\<rparr>
               else flexible flex s)
         else None)"

definition validate_date ::
  "(string \<Rightarrow> timestamp option) \<Rightarrow> string option \<Rightarrow> timestamp option" where
  "validate_date flex date_str =
    (case date_str of
       None \<Rightarrow> None
     | Some s \<Rightarrow>
         if s = [] then None
         else (case to_datetime flex s of
                 None \<Rightarrow> None
               | Some parsed_date \<Rightarrow>
                   if year parsed_date < 1900 \<or> year parsed_date > 2100 then None
                   else Some parsed_date))"

text \<open>Decimal digits of a number, and \<^verbatim>\<open>strftime('%Y-%m-%d')\<close>: month and day on two digits.\<close>

definition digit_char :: "nat \<Rightarrow> char" where
  "digit_char n = char_of (48 + n)"

fun dec :: "nat \<Rightarrow> string" where
  "dec n = (if n < 10 then [digit_char n] else dec (n div 10) @ [digit_char (n mod 10)])"

definition zfill :: "nat \<Rightarrow> string \<Rightarrow> string" where
  "zfill w s = replicate (w - length s) CHR ''0'' @ s"

definition strftime :: "timestamp \<Rightarrow> string" where
  "strftime d = dec (year d) @ ''-'' @ zfill 2 (dec (month d)) @ ''-'' @ zfill 2 (dec (day d))"

text \<open>\<^verbatim>\<open>df.dropna(how='all')\<close>: a row goes when every cell of it is NaN.\<close>

definition all_nan :: "(string option, cell) transaction \<Rightarrow> bool" where
  "all_nan r = (transaction_id r = None \<and> t_customer_id r = None \<and> t_product_id r = None
                \<and> amount r = NaN \<and> date r = None)"

text \<open>Lines 176-177: validate every date, drop the rows whose date became NaN.\<close>

definition apply_validate_date ::
  "(string \<Rightarrow> timestamp option) \<Rightarrow> (string option, cell) transaction list
     \<Rightarrow> (timestamp option, cell) transaction list" where
  "apply_validate_date flex df =
     dropna date
       (map (\<lambda>r. \<lparr>transaction_id = transaction_id r, t_customer_id = t_customer_id r,
                   t_product_id = t_product_id r, amount = amount r,
                   date = validate_date flex (date r)\<rparr>) df)"

text \<open>Lines 184-188: coerce the amount, drop NaN, keep the amounts in range.\<close>

definition amount_filter ::
  "(string \<Rightarrow> rat option) \<Rightarrow> ('d, cell) transaction list
     \<Rightarrow> ('d, rat option) transaction list" where
  "amount_filter pf df =
     filter (\<lambda>r. in_range (amount r))
       (dropna amount
         (map (\<lambda>r. \<lparr>transaction_id = transaction_id r, t_customer_id = t_customer_id r,
                     t_product_id = t_product_id r, amount = to_numeric pf (amount r),
                     date = date r\<rparr>) df))"

text \<open>Lines 191-194: the date is rendered as text; NaT would render as NaN.\<close>

definition render_date ::
  "(timestamp option, 'a) transaction list \<Rightarrow> (string option, 'a) transaction list" where
  "render_date df =
     map (\<lambda>r. \<lparr>transaction_id = transaction_id r, t_customer_id = t_customer_id r,
                 t_product_id = t_product_id r, amount = amount r,
                 date = map_option strftime (date r)\<rparr>) df"

text \<open>
  The rule chain of \<^verbatim>\<open>transform_transactions\<close>. The column that \<^verbatim>\<open>apply(validate_date)\<close>
  returns is a datetime column when at least one date was accepted, and a column of
  \<^verbatim>\<open>None\<close> objects otherwise; on the latter the \<^verbatim>\<open>.dt\<close> accessor of line 194 raises
  AttributeError, which nothing catches before \<^verbatim>\<open>run_pipeline\<close>. The rows between line
  177 and line 194 are computed all the same, as in the source.
\<close>

definition transform_transactions ::
  "(string \<Rightarrow> timestamp option) \<Rightarrow> (string \<Rightarrow> rat option)
     \<Rightarrow> (string option, cell) transaction list
     \<Rightarrow> error + (string option, rat option) transaction list" where
  "transform_transactions flex pf df =
    (let rs1 = filter (\<lambda>r. \<not> all_nan r) df;
         rs2 = apply_validate_date flex rs1;
         rs3 = drop_duplicates (\<lambda>r. r) rs2;
         rs4 = drop_duplicates transaction_id rs3;
         rs5 = amount_filter pf rs4
     in if rs2 = [] then Inl AttributeError else Inr (render_date rs5))"

section \<open>The referential-integrity filter\<close>

definition validate_referential_integrity ::
  "customers_df \<Rightarrow> 'p product list \<Rightarrow> ('d, 'a) transaction list
     \<Rightarrow> ('d, 'a) transaction list" where
  "validate_referential_integrity customers_df products_df transactions_df =
    (let valid_customer_ids = set (map customer_id (rows customers_df));
         valid_product_ids = set (map product_id products_df)
     in filter (\<lambda>t. t_customer_id t \<in> valid_customer_ids
                    \<and> t_product_id t \<in> valid_product_ids) transactions_df)"


section \<open>The store\<close>

text \<open>
  The SQLite database holds three tables, created by \<^verbatim>\<open>create_tables\<close>; the state of the
  store is the committed contents of each, in insertion order. An \<^verbatim>\<open>INSERT\<close> first binds
  its parameters: an integer outside the 64-bit range of SQLite's INTEGER raises OverflowError,
  and a NaN cell is bound as NULL. The statement then fails with an integrity error when the
  row breaks a constraint of the schema:
  \<^item> \<^verbatim>\<open>customers\<close>: \<^verbatim>\<open>name\<close> and \<^verbatim>\<open>email\<close> are NOT NULL, \<^verbatim>\<open>email\<close> is UNIQUE,
    \<^verbatim>\<open>customer_id\<close> is a TEXT PRIMARY KEY (unique, and NULL is let in, as SQLite does for a
    primary key that is not an integer);
  \<^item> \<^verbatim>\<open>products\<close>: \<^verbatim>\<open>name\<close>, \<^verbatim>\<open>category\<close> and \<^verbatim>\<open>price\<close> are NOT NULL,
    \<^verbatim>\<open>product_id\<close> is an INTEGER PRIMARY KEY (unique; NULL is replaced by one more than the
    largest id of the table, or 1 in an empty table);
  \<^item> \<^verbatim>\<open>transactions\<close>: every column but \<^verbatim>\<open>transaction_id\<close> is NOT NULL,
    \<^verbatim>\<open>transaction_id\<close> is a TEXT PRIMARY KEY. Foreign keys are declared, and SQLite does
    not enforce them on a connection that has not switched them on.
  A frame with a NaN product id holds its ids as floats, whose integral values stay below the
  largest 64-bit integer, so the id that replaces NULL is always in range.
\<close>

record db =
  customers_tbl :: "customer list"
  products_tbl :: "rat option product list"
  transactions_tbl :: "(string option, rat option) transaction list"

definition fits_int64 :: "int option \<Rightarrow> bool" where
  "fits_int64 i = (case i of None \<Rightarrow> True
                   | Some v \<Rightarrow> - 9223372036854775808 \<le> v \<and> v \<le> 9223372036854775807)"

definition insert_customer :: "customer list \<Rightarrow> customer \<Rightarrow> error + customer list" where
  "insert_customer tbl r =
    (if name r = None \<or> email r = None then Inl IntegrityError
     else if customer_id r \<noteq> None \<and> customer_id r \<in> set (map customer_id tbl)
     then Inl IntegrityError
     else if email r \<in> set (map email tbl) then Inl IntegrityError
     else Inr (tbl @ [r]))"

definition next_rowid :: "int option list \<Rightarrow> int" where
  "next_rowid ids =
    (case ids of [] \<Rightarrow> 1
     | i # rest \<Rightarrow> fold max (map (\<lambda>x. case x of None \<Rightarrow> 0 | Some v \<Rightarrow> v) rest)
                      (case i of None \<Rightarrow> 0 | Some v \<Rightarrow> v) + 1)"

definition insert_product ::
  "rat option product list \<Rightarrow> rat option product \<Rightarrow> error + rat option product list" where
  "insert_product tbl r =
    (if \<not> fits_int64 (product_id r) then Inl OverflowError
     else if pname r = None \<or> category r = None \<or> price r = None then Inl IntegrityError
     else (case product_id r of
             None \<Rightarrow> Inr (tbl @ [r\<lparr>product_id := Some (next_rowid (map product_id tbl))\<rparr>])
           | Some i \<Rightarrow>
               if Some i \<in> set (map product_id tbl) then Inl IntegrityError
               else Inr (tbl @ [r])))"

definition insert_transaction ::
  "(string option, rat option) transaction list \<Rightarrow> (string option, rat option) transaction
     \<Rightarrow> error + (string option, rat option) transaction list" where
  "insert_transaction tbl r =
    (if \<not> fits_int64 (t_product_id r) then Inl OverflowError
     else if t_customer_id r = None \<or> t_product_id r = None \<or> amount r = None
             \<or> date r = None
     then Inl IntegrityError
     else if transaction_id r \<noteq> None \<and> transaction_id r \<in> set (map transaction_id tbl)
     then Inl IntegrityError
     else Inr (tbl @ [r]))"

text \<open>The insert loop of the three load functions: the first failing row raises.\<close>

fun insert_all ::
  "('r list \<Rightarrow> 'r \<Rightarrow> error + 'r list) \<Rightarrow> 'r list \<Rightarrow> 'r list \<Rightarrow> error + 'r list" where
  "insert_all ins tbl [] = Inr tbl"
| "insert_all ins tbl (r # rs) =
     (case ins tbl r of Inl e \<Rightarrow> Inl e | Inr tbl' \<Rightarrow> insert_all ins tbl' rs)"

text \<open>
  Each load function deletes the table, inserts every row and commits. When an insert raises,
  the function re-raises before its commit; the delete and the inserts done so far belong to
  the open transaction, which is discarded when the connection is closed, so the committed
  table is the one from before the call.
\<close>

definition load_customers :: "db \<Rightarrow> customers_df \<Rightarrow> error + db" where
  "load_customers d df =
    (case insert_all insert_customer [] (rows df) of
       Inl e \<Rightarrow> Inl e
     | Inr tbl \<Rightarrow> Inr (d\<lparr>customers_tbl := tbl\<rparr>))"

definition load_products :: "db \<Rightarrow> rat option product list \<Rightarrow> error + db" where
  "load_products d df =
    (case insert_all insert_product [] df of
       Inl e \<Rightarrow> Inl e
     | Inr tbl \<Rightarrow> Inr (d\<lparr>products_tbl := tbl\<rparr>))"

definition load_transactions ::
  "db \<Rightarrow> (string option, rat option) transaction list \<Rightarrow> error + db" where
  "load_transactions d df =
    (case insert_all insert_transaction [] df of
       Inl e \<Rightarrow> Inl e
     | Inr tbl \<Rightarrow> Inr (d\<lparr>transactions_tbl := tbl\<rparr>))"

section \<open>Verification and reconciliation\<close>

text \<open>The count dictionaries are association lists; a missing key raises KeyError.\<close>

type_synonym counts = "(string \<times> nat) list"

definition verify_data_loaded :: "db \<Rightarrow> counts" where
  "verify_data_loaded d =
    [(''customers'', length (customers_tbl d)),
     (''products'', length (products_tbl d)),
     (''transactions'', length (transactions_tbl d))]"

definition getitem :: "counts \<Rightarrow> string \<Rightarrow> error + nat" where
  "getitem d k = (case map_of d k of None \<Rightarrow> Inl (KeyError k) | Some v \<Rightarrow> Inr v)"

definition bind :: "error + 'a \<Rightarrow> ('a \<Rightarrow> error + 'b) \<Rightarrow> error + 'b" where
  "bind m f = (case m of Inl e \<Rightarrow> Inl e | Inr v \<Rightarrow> f v)"

definition pass_fail :: "bool \<Rightarrow> string" where
  "pass_fail b = (if b then ''PASS'' else ''FAIL'')"

definition count_line :: "string \<Rightarrow> nat \<Rightarrow> nat \<Rightarrow> bool \<Rightarrow> string" where
  "count_line label t l ok =
     label @ '': '' @ dec t @ '' transformed vs '' @ dec l @ '' loaded - '' @ pass_fail ok"

definition rule_line :: string where
  "rule_line = replicate 50 CHR ''=''"

text \<open>
  \<^verbatim>\<open>check_etl_pipeline\<close> returns nothing and prints; the model returns the texts of its
  \<^verbatim>\<open>print\<close> calls in order, or the KeyError of the first dictionary access that fails.
\<close>

definition check_etl_pipeline :: "counts \<Rightarrow> counts \<Rightarrow> error + string list" where
  "check_etl_pipeline transformed_counts loaded_counts =
    bind (getitem transformed_counts ''customers'') (\<lambda>tc.
    bind (getitem loaded_counts ''customers'') (\<lambda>lc.
    bind (getitem transformed_counts ''products'') (\<lambda>tp.
    bind (getitem loaded_counts ''products'') (\<lambda>lp.
    bind (getitem transformed_counts ''transactions'') (\<lambda>tt.
    bind (getitem loaded_counts ''transactions'') (\<lambda>lt.
      let customer_match = (tc = lc);
          product_match = (tp = lp);
          transaction_match = (tt = lt)
      in Inr ([line_feed # rule_line, ''ETL PIPELINE VALIDATION CHECK'', rule_line,
               count_line ''Customers'' tc lc customer_match,
               count_line ''Products'' tp lp product_match,
               count_line ''Transactions'' tt lt transaction_match]
              @ (if customer_match \<and> product_match \<and> transaction_match
                 then [line_feed # ''ETL Pipeline Status: PASS - All data loaded correctly'']
                 else [line_feed # ''ETL Pipeline Status: FAIL - Data mismatch detected'',
                       ''Pipeline is broken - investigate the loading process''])
              @ [rule_line])))))))"

section \<open>The orchestrator\<close>

text \<open>
  A run reads the three CSV files (\<open>None\<close> when \<^verbatim>\<open>read_csv\<close> raises), and works on the
  store through one connection (\<open>reachable\<close> says whether \<^verbatim>\<open>sqlite3.connect\<close> succeeds).
  Its result is what it leaves behind: the outcome (the exception it re-raises, or the report of
  a completed run), the committed store and the state of the connection.
\<close>

record sources =
  customers_csv :: customers_df
  products_csv :: "cell product list"
  transactions_csv :: "(string option, cell) transaction list"

record report =
  customers_clean :: customers_df
  products_clean :: "rat option product list"
  transactions_clean :: "(string option, rat option) transaction list"
  transformed_counts :: counts
  loaded_counts :: counts
  printed :: "string list"

datatype conn_state = NoConn | Opened | Closed

record run_result =
  outcome :: "error + report"
  store :: db
  conn :: conn_state

definition extract_data :: "sources option \<Rightarrow> error + sources" where
  "extract_data files = (case files of None \<Rightarrow> Inl ExtractError | Some src \<Rightarrow> Inr src)"

text \<open>
  Lines 373 to 377: step 8 on the counts that steps 5 and 7 produced, then the two completion
  lines. The report collects what the run computed and what these lines print.
\<close>

definition check_and_complete ::
  "customers_df \<Rightarrow> rat option product list \<Rightarrow> (string option, rat option) transaction list
     \<Rightarrow> counts \<Rightarrow> counts \<Rightarrow> error + report" where
  "check_and_complete cc pc tc transformed loaded =
    (case check_etl_pipeline transformed loaded of
       Inl e \<Rightarrow> Inl e
     | Inr lines \<Rightarrow>
         Inr \<lparr>customers_clean = cc, products_clean = pc, transactions_clean = tc,
               transformed_counts = transformed, loaded_counts = loaded,
               printed = lines @ [''ETL Pipeline completed!'', rule_line]\<rparr>)"

text \<open>
  Steps 3 to 8 of \<^verbatim>\<open>run_pipeline\<close>, on an open connection: the outcome and the committed
  store. A step that raises ends the run and keeps what the steps before it committed; the
  transformers run before the first load.
\<close>

definition pipeline_steps ::
  "(string \<Rightarrow> timestamp option) \<Rightarrow> (string \<Rightarrow> rat option) \<Rightarrow> sources option \<Rightarrow> db
     \<Rightarrow> (error + report) \<times> db" where
  "pipeline_steps flex pf files d =
    (case extract_data files of
       Inl e \<Rightarrow> (Inl e, d)
     | Inr src \<Rightarrow>
        (let cc = transform_customers (customers_csv src);
             pc = transform_products pf (products_csv src)
         in case transform_transactions flex pf (transactions_csv src) of
              Inl e \<Rightarrow> (Inl e, d)
            | Inr tc0 \<Rightarrow>
               (let tc = validate_referential_integrity cc pc tc0;
                    transformed = [(''customers'', length (rows cc)),
                                   (''products'', length pc),
                                   (''transactions'', length tc)]
                in case load_customers d cc of
                     Inl e \<Rightarrow> (Inl e, d)
                   | Inr d1 \<Rightarrow>
                      (case load_products d1 pc of
                         Inl e \<Rightarrow> (Inl e, d1)
                       | Inr d2 \<Rightarrow>
                          (case load_transactions d2 tc of
                             Inl e \<Rightarrow> (Inl e, d2)
                           | Inr d3 \<Rightarrow>
                              (check_and_complete cc pc tc transformed
                                 (verify_data_loaded d3), d3))))))"

text \<open>
  \<^verbatim>\<open>run_pipeline\<close>: connect, run the steps, and in the \<^verbatim>\<open>finally\<close> block close the
  connection if there is one.
\<close>

definition run_pipeline ::
  "(string \<Rightarrow> timestamp option) \<Rightarrow> (string \<Rightarrow> rat option) \<Rightarrow> bool \<Rightarrow> sources option \<Rightarrow> db
     \<Rightarrow> run_result" where
  "run_pipeline flex pf reachable files d =
    (if \<not> reachable then \<lparr>outcome = Inl ConnectError, store = d, conn = NoConn\<rparr>
     else (case pipeline_steps flex pf files d of
             (res, d') \<Rightarrow> \<lparr>outcome = res, store = d', conn = Closed\<rparr>))"

section \<open>The email pattern as the specification words it\<close>

text \<open>
  The specification describes the pattern as: a local part of one or more characters from
  letters, digits and \<^verbatim>\<open>._%+-\<close>, then \<^verbatim>\<open>@\<close>, a domain of one or more characters from
  letters, digits and \<^verbatim>\<open>.-\<close>, then a dot, and a top-level label of at least two letters.
  \<open>spec_email_shape s i j\<close> reads \<open>s\<close> that way with the \<^verbatim>\<open>@\<close> at index \<open>i\<close> and the dot
  at index \<open>j\<close>; \<open>spec_email_pattern\<close> tries every pair of indices.
\<close>

definition spec_email_shape :: "string \<Rightarrow> nat \<Rightarrow> nat \<Rightarrow> bool" where
  "spec_email_shape s i j =
    (i < j \<and> j < length s \<and> s ! i = CHR ''@'' \<and> s ! j = CHR ''.''
     \<and> take i s \<noteq> [] \<and> list_all local_char (take i s)
     \<and> take (j - Suc i) (drop (Suc i) s) \<noteq> []
     \<and> list_all domain_char (take (j - Suc i) (drop (Suc i) s))
     \<and> 2 \<le> length (drop (Suc j) s) \<and> list_all letter (drop (Suc j) s))"

definition spec_email_pattern :: "string \<Rightarrow> bool" where
  "spec_email_pattern s =
     list_ex (\<lambda>i. list_ex (\<lambda>j. spec_email_shape s i j) [0..<length s]) [0..<length s]"

section \<open>Example inputs\<close>


definition sample_flexible_parser :: "string \<Rightarrow> timestamp option" where
  "sample_flexible_parser s = None"

definition sample_str_to_float :: "string \<Rightarrow> rat option" where
  "sample_str_to_float s = None"

definition sample_sources :: sources where
  "sample_sources =
    \<lparr>customers_csv = \<lparr>has_name = True, rows =
       [\<lparr>customer_id = Some ''c1'', name = Some ''Ann'', email = Some ''a@b.com''\<rparr>]\<rparr>,
     products_csv =
       [\<lparr>product_id = Some 1, pname = Some ''Novel'', category = Some ''books'',
         price = Num 5\<rparr>],
     transactions_csv =
       [\<lparr>transaction_id = Some ''t1'', t_customer_id = Some ''c1'', t_product_id = Some 1,
         amount = Num 10000, date = Some ''2024-01-15''\<rparr>,
        \<lparr>transaction_id = Some ''t2'', t_customer_id = Some ''c1'', t_product_id = Some 1,
         amount = Num 20, date = Some ''2023-02-30''\<rparr>]\<rparr>"



section \<open>Facts about the building blocks\<close>

lemma upper_lower_char: "\<not> upper_letter (lower_char c)"
  by (cases c) (auto simp add: upper_letter_def lower_char_def less_eq_char_def)

lemma lowered_neq_upper: "list_ex upper_letter k \<Longrightarrow> map lower_char s \<noteq> k"
  using upper_lower_char by (auto simp: list_ex_iff)

lemma upper_keys:
  "list_ex upper_letter ''ELECTRONICS''" "list_ex upper_letter ''BOOKS''"
  "list_ex upper_letter ''HOME''"
  by (simp_all add: upper_letter_def less_eq_char_def)

lemma normalize_category_Some:
  "normalize_category (Some s) =
     (if map lower_char s = ''electronics'' then Some ''Electronics''
      else if map lower_char s = ''books'' then Some ''Books''
      else if map lower_char s = ''home'' then Some ''Home''
      else Some s)"
  using lowered_neq_upper[OF upper_keys(1), of s] lowered_neq_upper[OF upper_keys(2), of s]
    lowered_neq_upper[OF upper_keys(3), of s]
  by (simp add: normalize_category_def fillna_def map_dict_def str_lower_def category_mapping_def)







lemma set_drop_duplicates_from: "set (drop_duplicates_from key seen rs) \<subseteq> set rs"
  by (induction rs arbitrary: seen) auto

lemma set_drop_duplicates: "set (drop_duplicates key rs) \<subseteq> set rs"
  by (simp add: drop_duplicates_def set_drop_duplicates_from)

lemma amount_filter_iff:
  assumes "r \<in> set df" "to_numeric pf (amount r) = Some v"
  shows "(\<lparr>transaction_id = transaction_id r, t_customer_id = t_customer_id r,
            t_product_id = t_product_id r, amount = Some v, date = date r\<rparr>
            \<in> set (amount_filter pf df)) = (0 < v \<and> v \<le> 10000)"
  using assms by (auto simp: amount_filter_def dropna_def in_range_def image_iff)












lemma apply_validate_date_iff:
  "(r' \<in> set (apply_validate_date flex df)) =
     (\<exists>r\<in>set df. \<exists>d. validate_date flex (date r) = Some d \<and>
        r' = \<lparr>transaction_id = transaction_id r, t_customer_id = t_customer_id r,
              t_product_id = t_product_id r, amount = amount r, date = Some d\<rparr>)"
  by (auto simp: apply_validate_date_def dropna_def)



lemma transform_transactions_Inr:
  "(transform_transactions flex pf df = Inr out) =
     (apply_validate_date flex (filter (\<lambda>r. \<not> all_nan r) df) \<noteq> []
      \<and> out = render_date (amount_filter pf (drop_duplicates transaction_id
                (drop_duplicates (\<lambda>r. r)
                   (apply_validate_date flex (filter (\<lambda>r. \<not> all_nan r) df))))))"
  by (auto simp: transform_transactions_def Let_def)



lemma amount_filter_row:
  assumes "x \<in> set (amount_filter pf df)"
  shows "\<exists>r\<in>set df. \<exists>v. to_numeric pf (amount r) = Some v \<and> 0 < v \<and> v \<le> 10000 \<and>
           x = \<lparr>transaction_id = transaction_id r, t_customer_id = t_customer_id r,
                 t_product_id = t_product_id r, amount = Some v, date = date r\<rparr>"
  using assms
  by (auto simp: amount_filter_def dropna_def in_range_def split: option.splits)

lemma transform_transactions_row:
  assumes "transform_transactions flex pf df = Inr out" and "x \<in> set out"
  shows "\<exists>r\<in>set df. \<exists>d v. validate_date flex (date r) = Some d
           \<and> to_numeric pf (amount r) = Some v \<and> 0 < v \<and> v \<le> 10000
           \<and> x = \<lparr>transaction_id = transaction_id r, t_customer_id = t_customer_id r,
                   t_product_id = t_product_id r, amount = Some v,
                   date = Some (strftime d)\<rparr>"
proof -
  let ?rs2 = "apply_validate_date flex (filter (\<lambda>r. \<not> all_nan r) df)"
  let ?rs4 = "drop_duplicates transaction_id (drop_duplicates (\<lambda>r. r) ?rs2)"
  from assms(1) have out: "out = render_date (amount_filter pf ?rs4)"
    by (simp add: transform_transactions_Inr)
  with assms(2) obtain r5 where r5: "r5 \<in> set (amount_filter pf ?rs4)"
    and x: "x = \<lparr>transaction_id = transaction_id r5, t_customer_id = t_customer_id r5,
                  t_product_id = t_product_id r5, amount = amount r5,
                  date = map_option strftime (date r5)\<rparr>"
    by (auto simp: render_date_def)
  from amount_filter_row[OF r5] obtain r4 v where r4: "r4 \<in> set ?rs4"
    and v: "to_numeric pf (amount r4) = Some v" "0 < v" "v \<le> 10000"
    and r5eq: "r5 = \<lparr>transaction_id = transaction_id r4, t_customer_id = t_customer_id r4,
                      t_product_id = t_product_id r4, amount = Some v, date = date r4\<rparr>"
    by blast
  from r4 have "r4 \<in> set (drop_duplicates (\<lambda>r. r) ?rs2)"
    by (meson set_drop_duplicates subsetD)
  then have "r4 \<in> set ?rs2"
    by (meson set_drop_duplicates subsetD)
  then obtain r d where r: "r \<in> set df" and d: "validate_date flex (date r) = Some d"
    and r4eq: "r4 = \<lparr>transaction_id = transaction_id r, t_customer_id = t_customer_id r,
                      t_product_id = t_product_id r, amount = amount r, date = Some d\<rparr>"
    by (auto simp: apply_validate_date_iff)
  from x r5eq r4eq v have
    "to_numeric pf (amount r) = Some v \<and> 0 < v \<and> v \<le> 10000
     \<and> x = \<lparr>transaction_id = transaction_id r, t_customer_id = t_customer_id r,
             t_product_id = t_product_id r, amount = Some v, date = Some (strftime d)\<rparr>"
    by simp
  with r d show ?thesis by blast
qed











lemma status_lines_differ:
  "line_feed # rule_line \<noteq> line_feed # ''ETL Pipeline Status: FAIL - Data mismatch detected''"
  "rule_line \<noteq> line_feed # ''ETL Pipeline Status: FAIL - Data mismatch detected''"
  "line_feed # ''ETL Pipeline Status: PASS - All data loaded correctly''
     \<noteq> line_feed # ''ETL Pipeline Status: FAIL - Data mismatch detected''"
  "line_feed # ''ETL Pipeline Status: FAIL - Data mismatch detected'' \<noteq> rule_line"
  "''Pipeline is broken - investigate the loading process''
     \<noteq> line_feed # ''ETL Pipeline Status: FAIL - Data mismatch detected''"
  "''ETL PIPELINE VALIDATION CHECK''
     \<noteq> line_feed # ''ETL Pipeline Status: FAIL - Data mismatch detected''"
  "''ETL Pipeline Status: FAIL - Data mismatch detected'' \<noteq> rule_line"
  "rule_line \<noteq> ''ETL Pipeline Status: FAIL - Data mismatch detected''"
  by code_simp+

lemma count_line_not_status:
  "count_line ''Customers'' a b ok \<noteq> line_feed # s"
  "count_line ''Products'' a b ok \<noteq> line_feed # s"
  "count_line ''Transactions'' a b ok \<noteq> line_feed # s"
  "line_feed # s \<noteq> count_line ''Customers'' a b ok"
  "line_feed # s \<noteq> count_line ''Products'' a b ok"
  "line_feed # s \<noteq> count_line ''Transactions'' a b ok"
  by (simp_all add: count_line_def line_feed_def)

lemma pipeline_steps_None: "pipeline_steps flex pf None d = (Inl ExtractError, d)"
  by (simp add: pipeline_steps_def extract_data_def)

lemma pipeline_steps_Some:
  "pipeline_steps flex pf (Some src) d =
    (let cc = transform_customers (customers_csv src);
         pc = transform_products pf (products_csv src)
     in case transform_transactions flex pf (transactions_csv src) of
          Inl e \<Rightarrow> (Inl e, d)
        | Inr tc0 \<Rightarrow>
           (let tc = validate_referential_integrity cc pc tc0
            in case insert_all insert_customer [] (rows cc) of
                 Inl e \<Rightarrow> (Inl e, d)
               | Inr ct \<Rightarrow>
                  (case insert_all insert_product [] pc of
                     Inl e \<Rightarrow> (Inl e, d\<lparr>customers_tbl := ct\<rparr>)
                   | Inr pt \<Rightarrow>
                      (case insert_all insert_transaction [] tc of
                         Inl e \<Rightarrow> (Inl e, d\<lparr>customers_tbl := ct, products_tbl := pt\<rparr>)
                       | Inr tt \<Rightarrow>
                          (check_and_complete cc pc tc
                             [(''customers'', length (rows cc)), (''products'', length pc),
                              (''transactions'', length tc)]
                             [(''customers'', length ct), (''products'', length pt),
                              (''transactions'', length tt)],
                           d\<lparr>customers_tbl := ct, products_tbl := pt,
                             transactions_tbl := tt\<rparr>)))))"
  by (simp add: pipeline_steps_def extract_data_def load_customers_def load_products_def
      load_transactions_def Let_def verify_data_loaded_def split: sum.splits)

lemma outcome_store_independent:
  "fst (pipeline_steps flex pf files d') = fst (pipeline_steps flex pf files d)"
  by (cases files)
    (simp_all add: pipeline_steps_None pipeline_steps_Some Let_def split: sum.splits)

lemma pipeline_steps_idem:
  "pipeline_steps flex pf files (snd (pipeline_steps flex pf files d))
     = pipeline_steps flex pf files d"
  by (cases files)
    (simp_all add: pipeline_steps_None pipeline_steps_Some Let_def split: sum.splits)

lemma run_pipeline_alt:
  "run_pipeline flex pf reachable files d =
    (if \<not> reachable then \<lparr>outcome = Inl ConnectError, store = d, conn = NoConn\<rparr>
     else \<lparr>outcome = fst (pipeline_steps flex pf files d),
           store = snd (pipeline_steps flex pf files d), conn = Closed\<rparr>)"
  by (simp add: run_pipeline_def split: prod.splits)






















lemma drop_duplicates_from_distinct:
  "distinct (map key (drop_duplicates_from key seen rs))
   \<and> set (map key (drop_duplicates_from key seen rs)) \<inter> set seen = {}"
proof (induction rs arbitrary: seen)
  case Nil
  then show ?case by simp
next
  case (Cons r rs)
  show ?case
  proof (cases "key r \<in> set seen")
    case True
    with Cons.IH[of seen] show ?thesis by simp
  next
    case False
    with Cons.IH[of "key r # seen"] show ?thesis by auto
  qed
qed

lemma drop_duplicates_distinct: "distinct (map key (drop_duplicates key rs))"
  by (simp add: drop_duplicates_def drop_duplicates_from_distinct)

lemma drop_duplicates_from_cong:
  "set seen = set seen' \<Longrightarrow>
     drop_duplicates_from key seen rs = drop_duplicates_from key seen' rs"
proof (induction rs arbitrary: seen seen')
  case Nil
  then show ?case by simp
next
  case (Cons r rs)
  from Cons.prems have "set (key r # seen) = set (key r # seen')" by simp
  from Cons.IH[OF this] Cons.IH[OF Cons.prems] Cons.prems show ?case by simp
qed

lemma drop_duplicates_from_append:
  "drop_duplicates_from key seen (xs @ ys) =
     drop_duplicates_from key seen xs @ drop_duplicates_from key (map key xs @ seen) ys"
proof (induction xs arbitrary: seen)
  case Nil
  then show ?case by simp
next
  case (Cons x xs)
  show ?case
  proof (cases "key x \<in> set seen")
    case True
    then have "set (map key (x # xs) @ seen) = set (map key xs @ seen)" by auto
    then have "drop_duplicates_from key (map key (x # xs) @ seen) ys
        = drop_duplicates_from key (map key xs @ seen) ys"
      by (rule drop_duplicates_from_cong)
    moreover have "drop_duplicates_from key seen ((x # xs) @ ys)
        = drop_duplicates_from key seen (xs @ ys)"
      using True by simp
    moreover have "drop_duplicates_from key seen (x # xs) = drop_duplicates_from key seen xs"
      using True by simp
    ultimately show ?thesis using Cons.IH[of seen] by simp
  next
    case False
    have "set (map key (x # xs) @ seen) = set (map key xs @ key x # seen)" by auto
    then have "drop_duplicates_from key (map key (x # xs) @ seen) ys
        = drop_duplicates_from key (map key xs @ key x # seen) ys"
      by (rule drop_duplicates_from_cong)
    moreover have "drop_duplicates_from key seen ((x # xs) @ ys)
        = x # drop_duplicates_from key (key x # seen) (xs @ ys)"
      using False by simp
    moreover have "drop_duplicates_from key seen (x # xs)
        = x # drop_duplicates_from key (key x # seen) xs"
      using False by simp
    ultimately show ?thesis using Cons.IH[of "key x # seen"] by simp
  qed
qed

lemma drop_duplicates_from_filter_key:
  "filter (\<lambda>r. key r = k) (drop_duplicates_from key seen rs) =
     (if k \<in> set seen then [] else take 1 (filter (\<lambda>r. key r = k) rs))"
proof (induction rs arbitrary: seen)
  case Nil
  then show ?case by simp
next
  case (Cons r rs)
  show ?case
  proof (cases "key r \<in> set seen")
    case True
    with Cons.IH[of seen] show ?thesis by auto
  next
    case False
    with Cons.IH[of "key r # seen"] show ?thesis by auto
  qed
qed

lemma drop_duplicates_from_distinct_other:
  "distinct (map f rs) \<Longrightarrow> distinct (map f (drop_duplicates_from key seen rs))"
proof (induction rs arbitrary: seen)
  case Nil
  then show ?case by simp
next
  case (Cons r rs)
  have "f r \<notin> f ` set (drop_duplicates_from key (key r # seen) rs)"
    using Cons.prems set_drop_duplicates_from[of key "key r # seen" rs] by auto
  with Cons show ?case by simp
qed

lemma transform_customers_rows:
  "rows (transform_customers df) =
     map (default_name df)
       (drop_duplicates customer_id
         (drop_duplicates email (filter (\<lambda>r. passes_email_checks (email r)) (rows df))))"
  by (simp add: transform_customers_def Let_def dropna_def passes_email_checks_def conj_ac)

lemma default_name_fields:
  "email (default_name df r) = email r" "customer_id (default_name df r) = customer_id r"
  by (simp_all add: default_name_def)

lemma map_default_name:
  "map email (map (default_name df) rs) = map email rs"
  "map customer_id (map (default_name df) rs) = map customer_id rs"
  by (simp_all add: default_name_fields comp_def)

lemma kept_rows_subset:
  "set (drop_duplicates customer_id (drop_duplicates email rs)) \<subseteq> set rs"
  using set_drop_duplicates[of customer_id "drop_duplicates email rs"]
    set_drop_duplicates[of email rs]
  by (rule subset_trans)

lemma kept_rows_distinct_email:
  "distinct (map email (drop_duplicates customer_id (drop_duplicates email rs)))"
proof -
  have "distinct (map email (drop_duplicates email rs))" by (rule drop_duplicates_distinct)
  then have "distinct (map email
      (drop_duplicates_from customer_id [] (drop_duplicates email rs)))"
    by (rule drop_duplicates_from_distinct_other)
  then show ?thesis by (simp only: drop_duplicates_def)
qed

lemma transform_customers_invariant:
  "(\<forall>r\<in>set (rows (transform_customers df)). passes_email_checks (email r))
   \<and> distinct (map email (rows (transform_customers df)))
   \<and> distinct (map customer_id (rows (transform_customers df)))"
proof -
  let ?v = "filter (\<lambda>r. passes_email_checks (email r)) (rows df)"
  let ?c = "drop_duplicates customer_id (drop_duplicates email ?v)"
  have eq: "rows (transform_customers df) = map (default_name df) ?c"
    by (rule transform_customers_rows)
  have d1: "distinct (map email (rows (transform_customers df)))"
    by (simp only: eq map_default_name kept_rows_distinct_email)
  have d2: "distinct (map customer_id (rows (transform_customers df)))"
    by (simp only: eq map_default_name drop_duplicates_distinct)
  have d3: "\<forall>r\<in>set (rows (transform_customers df)). passes_email_checks (email r)"
  proof
    fix r assume "r \<in> set (rows (transform_customers df))"
    then obtain r0 where r0: "r0 \<in> set ?c" and r: "r = default_name df r0"
      unfolding eq by auto
    from r0 kept_rows_subset[of ?v] have "r0 \<in> set ?v" by blast
    then have "passes_email_checks (email r0)" by simp
    with r show "passes_email_checks (email r)" by (simp add: default_name_fields)
  qed
  from d1 d2 d3 show ?thesis by blast
qed

lemma filter_none: "(\<And>x. x \<in> set xs \<Longrightarrow> \<not> P x) \<Longrightarrow> filter P xs = []"
  by (simp add: filter_empty_conv)

lemma filter_email_drop_duplicates_from:
  assumes "filter (\<lambda>r. email r = e) xs = []"
  shows "filter (\<lambda>r. email r = e) (drop_duplicates_from key seen xs) = []"
proof (rule filter_none)
  fix x assume "x \<in> set (drop_duplicates_from key seen xs)"
  then have "x \<in> set xs" using set_drop_duplicates_from[of key seen xs] by blast
  with assms show "\<not> email x = e" by (simp add: filter_empty_conv)
qed

lemma first_with_email:
  assumes first: "email r1 \<notin> set (map email pre)"
    and ok: "passes_email_checks (email r1)"
  shows "filter (\<lambda>r. email r = email r1)
           (drop_duplicates customer_id
              (drop_duplicates email
                 (filter (\<lambda>r. passes_email_checks (email r)) (pre @ r1 # rest))))
         = (if customer_id r1 \<in> set (map customer_id
                 (drop_duplicates email (filter (\<lambda>r. passes_email_checks (email r)) pre)))
            then [] else [r1])"
proof -
  let ?ok = "\<lambda>r. passes_email_checks (email r)"
  let ?e = "\<lambda>r. email r = email r1"
  let ?vp = "filter ?ok pre"
  let ?A = "drop_duplicates email ?vp"
  let ?B = "drop_duplicates_from email (email r1 # map email ?vp) (filter ?ok rest)"
  have notin: "email r1 \<notin> set (map email ?vp)"
    using first by auto
  have V: "filter ?ok (pre @ r1 # rest) = ?vp @ r1 # filter ?ok rest"
    using ok by simp
  have "drop_duplicates email (?vp @ r1 # filter ?ok rest)
      = ?A @ drop_duplicates_from email (map email ?vp @ []) (r1 # filter ?ok rest)"
    unfolding drop_duplicates_def by (rule drop_duplicates_from_append)
  also have "drop_duplicates_from email (map email ?vp @ []) (r1 # filter ?ok rest)
      = r1 # ?B"
    using notin by simp
  finally have E: "drop_duplicates email (filter ?ok (pre @ r1 # rest)) = ?A @ r1 # ?B"
    by (simp only: V)
  have A_none: "filter ?e ?A = []"
  proof (rule filter_none)
    fix x assume "x \<in> set ?A"
    then have "x \<in> set ?vp" using set_drop_duplicates[of email ?vp] by blast
    then have m: "email x \<in> set (map email ?vp)" by simp
    show "\<not> email x = email r1"
    proof
      assume "email x = email r1"
      with m notin show False by (simp only:)
    qed
  qed
  have B_none: "filter ?e ?B = []"
    by (simp add: drop_duplicates_from_filter_key)
  note sub_none = filter_email_drop_duplicates_from
  have C: "drop_duplicates customer_id (?A @ r1 # ?B)
      = drop_duplicates_from customer_id [] ?A
        @ drop_duplicates_from customer_id (map customer_id ?A @ []) (r1 # ?B)"
    unfolding drop_duplicates_def by (rule drop_duplicates_from_append)
  have L: "drop_duplicates customer_id
        (drop_duplicates email (filter ?ok (pre @ r1 # rest)))
      = drop_duplicates_from customer_id [] ?A
        @ drop_duplicates_from customer_id (map customer_id ?A @ []) (r1 # ?B)"
    by (simp only: E C)
  show ?thesis
  proof (cases "customer_id r1 \<in> set (map customer_id ?A)")
    case True
    then have X: "drop_duplicates_from customer_id (map customer_id ?A @ []) (r1 # ?B)
        = drop_duplicates_from customer_id (map customer_id ?A @ []) ?B"
      by simp
    have "filter ?e (drop_duplicates customer_id
        (drop_duplicates email (filter ?ok (pre @ r1 # rest)))) = [] @ []"
      by (subst L) (simp only: X filter_append sub_none[OF A_none] sub_none[OF B_none])
    with True show ?thesis by (simp only: if_True append_Nil)
  next
    case False
    then have X: "drop_duplicates_from customer_id (map customer_id ?A @ []) (r1 # ?B)
        = r1 # drop_duplicates_from customer_id (customer_id r1 # map customer_id ?A) ?B"
      by simp
    have "filter ?e (drop_duplicates customer_id
        (drop_duplicates email (filter ?ok (pre @ r1 # rest)))) = [] @ r1 # []"
      by (subst L) (simp only: X filter_append filter.simps sub_none[OF A_none]
          sub_none[OF B_none] refl if_True)
    with False show ?thesis by (simp only: if_False append_Nil)
  qed
qed

lemma filter_email_default_name:
  "filter (\<lambda>r. email r = e) (map (default_name df) rs)
     = map (default_name df) (filter (\<lambda>r. email r = e) rs)"
  by (induction rs) (simp_all add: default_name_fields)

section \<open>The claims\<close>

text \<open>
  Claim C2. A transaction is in the output of the referential-integrity filter exactly when it
  is in the input, its customer id is the customer id of a row of the cleaned Customer frame
  and its product id is the product id of a row of the cleaned Product frame: every kept
  transaction has both references, and a transaction that misses one is removed.
\<close>

theorem referential_integrity_filter:
  "(t \<in> set (validate_referential_integrity cs ps ts)) =
     (t \<in> set ts \<and> t_customer_id t \<in> set (map customer_id (rows cs))
                 \<and> t_product_id t \<in> set (map product_id ps))"
  by (simp add: validate_referential_integrity_def)

text \<open>
  Claim C5. A row whose amount coerces to the number \<open>v\<close> is kept by the amount filter if and
  only if \<open>0 < v \<le> 10000\<close>, every row of the transformer's output has such an amount, and
  of the amounts 10001.00, 10000.00 and 0.00 only 10000.00 is kept.
\<close>

theorem amount_filter_rule:
  "(r \<in> set df \<and> to_numeric pf (amount r) = Some v \<longrightarrow>
      (\<lparr>transaction_id = transaction_id r, t_customer_id = t_customer_id r,
         t_product_id = t_product_id r, amount = Some v, date = date r\<rparr>
         \<in> set (amount_filter pf df)) = (0 < v \<and> v \<le> 10000))
   \<and> (transform_transactions flex pf raw = Inr out \<longrightarrow>
        (\<forall>x\<in>set out. \<exists>a. amount x = Some a \<and> 0 < a \<and> a \<le> 10000))
   \<and> (amount r = Num 10001 \<longrightarrow> amount_filter pf [r] = [])
   \<and> (amount r = Num 10000 \<longrightarrow>
        amount_filter pf [r] =
          [\<lparr>transaction_id = transaction_id r, t_customer_id = t_customer_id r,
            t_product_id = t_product_id r, amount = Some 10000, date = date r\<rparr>])
   \<and> (amount r = Num 0 \<longrightarrow> amount_filter pf [r] = [])"
proof -
  have out: "transform_transactions flex pf raw = Inr out \<longrightarrow>
        (\<forall>x\<in>set out. \<exists>a. amount x = Some a \<and> 0 < a \<and> a \<le> 10000)"
  proof (intro impI ballI)
    fix x assume "transform_transactions flex pf raw = Inr out" and "x \<in> set out"
    from transform_transactions_row[OF this]
    show "\<exists>a. amount x = Some a \<and> 0 < a \<and> a \<le> 10000" by auto
  qed
  show ?thesis
    using amount_filter_iff[of r df pf v] out
    by (simp add: amount_filter_def dropna_def to_numeric_def in_range_def)
qed

theorem amount_filter_rule_witness:
  "amount_filter (\<lambda>s. None)
      [\<lparr>transaction_id = Some ''t1'', t_customer_id = Some ''c1'', t_product_id = Some 1,
        amount = Num 10000, date = Some ''2024-01-15''\<rparr>] =
      [\<lparr>transaction_id = Some ''t1'', t_customer_id = Some ''c1'', t_product_id = Some 1,
        amount = Some 10000, date = Some ''2024-01-15''\<rparr>]
   \<and> \<lparr>transaction_id = Some ''t1'', t_customer_id = Some ''c1'', t_product_id = Some 1,
        amount = Some 10000, date = Some ''2024-01-15''\<rparr>
      \<in> set (amount_filter (\<lambda>s. None)
          [\<lparr>transaction_id = Some ''t1'', t_customer_id = Some ''c1'', t_product_id = Some 1,
            amount = Num 10000, date = Some ''2024-01-15''\<rparr>])
   \<and> (\<exists>out. transform_transactions sample_flexible_parser sample_str_to_float
               (transactions_csv sample_sources) = Inr out
          \<and> map amount out = [Some 10000])"
proof -
  have run: "transform_transactions sample_flexible_parser sample_str_to_float
      (transactions_csv sample_sources)
     = Inr [\<lparr>transaction_id = Some ''t1'', t_customer_id = Some ''c1'', t_product_id = Some 1,
             amount = Some 10000, date = Some ''2024-01-15''\<rparr>]"
    by code_simp
  show ?thesis
    using run amount_filter_rule
      [where r = "\<lparr>transaction_id = Some ''t1'', t_customer_id = Some ''c1'',
            t_product_id = Some 1, amount = Num 10000, date = Some ''2024-01-15''\<rparr>"
         and df = "[\<lparr>transaction_id = Some ''t1'', t_customer_id = Some ''c1'',
            t_product_id = Some 1, amount = Num 10000, date = Some ''2024-01-15''\<rparr>]"
         and pf = "\<lambda>s. None" and v = 10000]
    by (simp add: to_numeric_def)
qed

text \<open>
  Claim C7 says that the mixed-case category \<^verbatim>\<open>ElEcTrOnIcS\<close> falls through the lookup and
  stays unchanged. The category is lower-cased before the lookup, so it does not.
\<close>

theorem category_lookup_folds_case_counterexample:
  "\<not> (normalize_category (Some ''ElEcTrOnIcS'') = Some ''ElEcTrOnIcS'')"
  by code_simp

text \<open>
  Claim C7, as the code has it. The lookup is made on the lower-cased category, so it ignores
  case: a category whose lower-case form is \<^verbatim>\<open>electronics\<close>, \<^verbatim>\<open>books\<close> or \<^verbatim>\<open>home\<close> becomes
  \<^verbatim>\<open>Electronics\<close>, \<^verbatim>\<open>Books\<close> or \<^verbatim>\<open>Home\<close>, any other category is left as it is (the
  upper-case keys of the table are never hit), and \<^verbatim>\<open>ElEcTrOnIcS\<close> becomes
  \<^verbatim>\<open>Electronics\<close> in the cleaned output.
\<close>

theorem category_lookup_folds_case:
  "normalize_category (Some s) =
     (if map lower_char s = ''electronics'' then Some ''Electronics''
      else if map lower_char s = ''books'' then Some ''Books''
      else if map lower_char s = ''home'' then Some ''Home''
      else Some s)
   \<and> normalize_category None = None
   \<and> normalize_category (Some ''ElEcTrOnIcS'') = Some ''Electronics''
   \<and> map category (transform_products pf
        [\<lparr>product_id = Some 1, pname = Some ''TV'', category = Some ''ElEcTrOnIcS'',
          price = Num 10\<rparr>]) = [Some ''Electronics'']"
proof -
  have a: "normalize_category (Some ''ElEcTrOnIcS'') = Some ''Electronics''"
    by code_simp
  have b: "normalize_category None = None"
    by (simp add: normalize_category_def fillna_def map_dict_def str_lower_def)
  show ?thesis
    by (simp add: normalize_category_Some[of s] a b transform_products_def drop_duplicates_def
        dropna_def to_numeric_def in_range_def)
qed

text \<open>
  Claim C9. There are raw Product batches in which a row with a valid in-range price, which
  alone would be kept, has no row with its product id in the cleaned output: an earlier row
  with the same product id, or with the same name and category, and a price that is out of
  range or not a number wins the first-seen deduplication and is then dropped by the price
  filter.
\<close>

theorem dedup_before_price_filter_loses_product:
  "transform_products pf
     [\<lparr>product_id = Some 1, pname = Some ''Lamp'', category = Some ''Home'', price = Num 0\<rparr>,
      \<lparr>product_id = Some 1, pname = Some ''Desk'', category = Some ''Home'', price = Num 10\<rparr>]
     = []
   \<and> transform_products pf
      [\<lparr>product_id = Some 1, pname = Some ''Desk'', category = Some ''Home'', price = Num 10\<rparr>]
     = [\<lparr>product_id = Some 1, pname = Some ''Desk'', category = Some ''Home'',
         price = Some 10\<rparr>]
   \<and> transform_products pf
     [\<lparr>product_id = Some 1, pname = Some ''Desk'', category = Some ''HOME'',
       price = Num 20000\<rparr>,
      \<lparr>product_id = Some 2, pname = Some ''Desk'', category = Some ''Home'', price = Num 10\<rparr>]
     = []
   \<and> transform_products pf
      [\<lparr>product_id = Some 2, pname = Some ''Desk'', category = Some ''Home'', price = Num 10\<rparr>]
     = [\<lparr>product_id = Some 2, pname = Some ''Desk'', category = Some ''Home'',
         price = Some 10\<rparr>]
   \<and> transform_products (\<lambda>s. None)
     [\<lparr>product_id = Some 1, pname = Some ''Lamp'', category = Some ''Home'',
       price = Str ''n/a''\<rparr>,
      \<lparr>product_id = Some 1, pname = Some ''Desk'', category = Some ''Home'', price = Num 10\<rparr>]
     = []"
proof -
  have c: "normalize_category (Some ''Home'') = Some ''Home''"
    "normalize_category (Some ''HOME'') = Some ''Home''"
    by code_simp+
  show ?thesis
    by (simp add: transform_products_def drop_duplicates_def dropna_def to_numeric_def
        in_range_def c)
qed

text \<open>
  Claim C8. The outcome of a run (the cleaned sets of the three entities, the transformed and
  loaded counts and the printed report, or the failure) does not depend on the store the run
  starts from, and running the pipeline again on the store the first run left gives the same
  result and the same store.
\<close>

theorem pipeline_rerun_idempotent:
  "outcome (run_pipeline flex pf reachable files d') = outcome (run_pipeline flex pf reachable files d)
   \<and> run_pipeline flex pf reachable files (store (run_pipeline flex pf reachable files d))
       = run_pipeline flex pf reachable files d"
  using outcome_store_independent[of flex pf files d' d] pipeline_steps_idem[of flex pf files d]
  by (simp add: run_pipeline_alt)








lemma email_pattern_on_blacklist:
  "map (re_match email_pattern) invalid_patterns =
     [False, False, False, False, True, False, True, True, False, True, True]"
  by code_simp

text \<open>
  Claim C1 says that every email of the cleaned Customer frame has the shape of the
  specification's pattern: local part, \<^verbatim>\<open>@\<close>, domain, dot, top-level label of at least two
  letters, and nothing else. The pattern in the code ends in \<^verbatim>\<open>$\<close>, which also holds before
  a line feed that ends the text, so a row whose email is \<^verbatim>\<open>a@b.com\<close> followed by a line
  feed (a quoted CSV field that ends in a line break) passes every filter and is in the cleaned
  frame, although its email does not have that shape. The other parts of the claim hold, see
  \<open>transform_customers_invariant\<close>.
\<close>

theorem trailing_line_feed_email_is_kept:
  "rows (transform_customers \<lparr>has_name = True, rows =
      [\<lparr>customer_id = Some ''c1'', name = Some ''Ann'',
        email = Some (''a@b.com'' @ [CHR 0x0A])\<rparr>]\<rparr>)
     = [\<lparr>customer_id = Some ''c1'', name = Some ''Ann'',
         email = Some (''a@b.com'' @ [CHR 0x0A])\<rparr>]
   \<and> re_match email_pattern (''a@b.com'' @ [CHR 0x0A])
   \<and> \<not> spec_email_pattern (''a@b.com'' @ [CHR 0x0A])
   \<and> spec_email_pattern ''a@b.com''"
  by code_simp

text \<open>
  Claim C3 says that of two rows with the same email and different customer ids the
  first-encountered one survives. The deduplication by customer id runs after the one by
  email: here the first row with \<^verbatim>\<open>a@b.com\<close> shares its customer id with an earlier row
  and is removed too, so no row with that email survives.
\<close>

theorem first_email_row_counterexample:
  "rows (transform_customers \<lparr>has_name = True, rows =
      [\<lparr>customer_id = Some ''1'', name = Some ''Ann'', email = Some ''x@y.com''\<rparr>,
       \<lparr>customer_id = Some ''1'', name = Some ''Bob'', email = Some ''a@b.com''\<rparr>,
       \<lparr>customer_id = Some ''2'', name = Some ''Cy'', email = Some ''a@b.com''\<rparr>]\<rparr>)
     = [\<lparr>customer_id = Some ''1'', name = Some ''Ann'', email = Some ''x@y.com''\<rparr>]"
  by code_simp

text \<open>
  Claim C3, as the code has it. Let \<open>r1\<close> be the first row of the batch with its email, let
  that email pass the email checks, and let \<open>r2\<close> be a later row with the same email and
  another customer id. Then \<open>r2\<close> is not in the cleaned frame, and the rows of the cleaned
  frame with that email are \<open>r1\<close> alone (with its name defaulted when the frame has no name
  column), unless an earlier row that the deduplication by email keeps has the customer id of
  \<open>r1\<close>, in which case there is none. The scenario of the specification gives exactly the
  row with id 1, whether the third email is empty text or absent.
\<close>

theorem email_dedup_keeps_first:
  assumes split: "rows df = pre @ r1 # mid @ r2 # post"
    and same: "email r2 = email r1"
    and differ: "customer_id r2 \<noteq> customer_id r1"
    and ok: "passes_email_checks (email r1)"
    and first: "email r1 \<notin> set (map email pre)"
  shows
  "filter (\<lambda>r. email r = email r1) (rows (transform_customers df))
     = (if customer_id r1 \<in> set (map customer_id
             (drop_duplicates email (filter (\<lambda>r. passes_email_checks (email r)) pre)))
        then [] else [default_name df r1])
   \<and> default_name df r2 \<notin> set (rows (transform_customers df))
   \<and> transform_customers \<lparr>has_name = False, rows =
        [\<lparr>customer_id = Some ''1'', name = None, email = Some ''a@b.com''\<rparr>,
         \<lparr>customer_id = Some ''2'', name = None, email = Some ''a@b.com''\<rparr>,
         \<lparr>customer_id = Some ''3'', name = None, email = Some ''''\<rparr>]\<rparr>
       = \<lparr>has_name = True, rows =
           [\<lparr>customer_id = Some ''1'', name = Some ''Unknown'', email = Some ''a@b.com''\<rparr>]\<rparr>
   \<and> transform_customers \<lparr>has_name = False, rows =
        [\<lparr>customer_id = Some ''1'', name = None, email = Some ''a@b.com''\<rparr>,
         \<lparr>customer_id = Some ''2'', name = None, email = Some ''a@b.com''\<rparr>,
         \<lparr>customer_id = Some ''3'', name = None, email = None\<rparr>]\<rparr>
       = \<lparr>has_name = True, rows =
           [\<lparr>customer_id = Some ''1'', name = Some ''Unknown'', email = Some ''a@b.com''\<rparr>]\<rparr>"
proof -
  let ?ok = "\<lambda>r. passes_email_checks (email r)"
  let ?C = "drop_duplicates customer_id (drop_duplicates email (filter ?ok (rows df)))"
  let ?hit = "customer_id r1 \<in> set (map customer_id (drop_duplicates email (filter ?ok pre)))"
  have C: "filter (\<lambda>r. email r = email r1) ?C = (if ?hit then [] else [r1])"
    unfolding split by (rule first_with_email[OF first ok])
  have kept: "filter (\<lambda>r. email r = email r1) (rows (transform_customers df))
      = (if ?hit then [] else [default_name df r1])"
    by (simp add: transform_customers_rows filter_email_default_name C)
  have gone: "default_name df r2 \<notin> set (rows (transform_customers df))"
  proof
    assume "default_name df r2 \<in> set (rows (transform_customers df))"
    moreover have "email (default_name df r2) = email r1"
      using same by (simp add: default_name_fields)
    ultimately have "default_name df r2
        \<in> set (filter (\<lambda>r. email r = email r1) (rows (transform_customers df)))"
      by simp
    then have "default_name df r2 = default_name df r1"
      unfolding kept by (simp split: if_splits)
    then have "customer_id (default_name df r2) = customer_id (default_name df r1)"
      by simp
    with differ show False by (simp add: default_name_fields)
  qed
  have s1: "transform_customers \<lparr>has_name = False, rows =
        [\<lparr>customer_id = Some ''1'', name = None, email = Some ''a@b.com''\<rparr>,
         \<lparr>customer_id = Some ''2'', name = None, email = Some ''a@b.com''\<rparr>,
         \<lparr>customer_id = Some ''3'', name = None, email = Some ''''\<rparr>]\<rparr>
       = \<lparr>has_name = True, rows =
           [\<lparr>customer_id = Some ''1'', name = Some ''Unknown'', email = Some ''a@b.com''\<rparr>]\<rparr>"
    by code_simp
  have s2: "transform_customers \<lparr>has_name = False, rows =
        [\<lparr>customer_id = Some ''1'', name = None, email = Some ''a@b.com''\<rparr>,
         \<lparr>customer_id = Some ''2'', name = None, email = Some ''a@b.com''\<rparr>,
         \<lparr>customer_id = Some ''3'', name = None, email = None\<rparr>]\<rparr>
       = \<lparr>has_name = True, rows =
           [\<lparr>customer_id = Some ''1'', name = Some ''Unknown'', email = Some ''a@b.com''\<rparr>]\<rparr>"
    by code_simp
  from kept gone s1 s2 show ?thesis by (intro conjI)
qed

theorem email_dedup_keeps_first_witness:
  "filter (\<lambda>r. email r = Some ''a@b.com'')
      (rows (transform_customers \<lparr>has_name = False, rows =
        [\<lparr>customer_id = Some ''1'', name = None, email = Some ''a@b.com''\<rparr>,
         \<lparr>customer_id = Some ''2'', name = None, email = Some ''a@b.com''\<rparr>,
         \<lparr>customer_id = Some ''3'', name = None, email = Some ''''\<rparr>]\<rparr>))
     = [\<lparr>customer_id = Some ''1'', name = Some ''Unknown'', email = Some ''a@b.com''\<rparr>]
   \<and> \<lparr>customer_id = Some ''2'', name = Some ''Unknown'', email = Some ''a@b.com''\<rparr>
       \<notin> set (rows (transform_customers \<lparr>has_name = False, rows =
        [\<lparr>customer_id = Some ''1'', name = None, email = Some ''a@b.com''\<rparr>,
         \<lparr>customer_id = Some ''2'', name = None, email = Some ''a@b.com''\<rparr>,
         \<lparr>customer_id = Some ''3'', name = None, email = Some ''''\<rparr>]\<rparr>))
   \<and> filter (\<lambda>r. email r = Some ''a@b.com'')
      (rows (transform_customers \<lparr>has_name = True, rows =
        [\<lparr>customer_id = Some ''1'', name = Some ''Ann'', email = Some ''x@y.com''\<rparr>,
         \<lparr>customer_id = Some ''1'', name = Some ''Bob'', email = Some ''a@b.com''\<rparr>,
         \<lparr>customer_id = Some ''2'', name = Some ''Cy'', email = Some ''a@b.com''\<rparr>]\<rparr>))
     = []"
proof -
  let ?r1 = "\<lparr>customer_id = Some ''1'', name = None, email = Some ''a@b.com''\<rparr>"
  let ?r2 = "\<lparr>customer_id = Some ''2'', name = None, email = Some ''a@b.com''\<rparr>"
  let ?r3 = "\<lparr>customer_id = Some ''3'', name = None, email = Some ''''\<rparr>"
  let ?df = "\<lparr>has_name = False, rows = [?r1, ?r2, ?r3]\<rparr>"
  let ?q0 = "\<lparr>customer_id = Some ''1'', name = Some ''Ann'', email = Some ''x@y.com''\<rparr>"
  let ?q1 = "\<lparr>customer_id = Some ''1'', name = Some ''Bob'', email = Some ''a@b.com''\<rparr>"
  let ?q2 = "\<lparr>customer_id = Some ''2'', name = Some ''Cy'', email = Some ''a@b.com''\<rparr>"
  let ?dq = "\<lparr>has_name = True, rows = [?q0, ?q1, ?q2]\<rparr>"
  have ok: "passes_email_checks (Some ''a@b.com'')" "passes_email_checks (Some ''x@y.com'')"
    by code_simp+
  have S: "rows ?df = [] @ ?r1 # [] @ ?r2 # [?r3]" by simp
  note A = email_dedup_keeps_first[where df = ?df and pre = "[]" and ?r1.0 = ?r1
      and mid = "[]" and ?r2.0 = ?r2 and post = "[?r3]", OF S]
  have p: "email ?r2 = email ?r1" "customer_id ?r2 \<noteq> customer_id ?r1"
    "passes_email_checks (email ?r1)" "email ?r1 \<notin> set (map email [])"
    using ok by simp_all
  note a = A[OF p]
  have a1: "filter (\<lambda>r. email r = Some ''a@b.com'') (rows (transform_customers ?df))
      = [\<lparr>customer_id = Some ''1'', name = Some ''Unknown'', email = Some ''a@b.com''\<rparr>]"
    using a[THEN conjunct1] by (simp add: drop_duplicates_def default_name_def)
  have a2: "\<lparr>customer_id = Some ''2'', name = Some ''Unknown'', email = Some ''a@b.com''\<rparr>
      \<notin> set (rows (transform_customers ?df))"
    using a[THEN conjunct2, THEN conjunct1] by (simp add: default_name_def)
  have Q: "rows ?dq = [?q0] @ ?q1 # [] @ ?q2 # []" by simp
  note B = email_dedup_keeps_first[where df = ?dq and pre = "[?q0]" and ?r1.0 = ?q1
      and mid = "[]" and ?r2.0 = ?q2 and post = "[]", OF Q, THEN conjunct1]
  have q: "email ?q2 = email ?q1" "customer_id ?q2 \<noteq> customer_id ?q1"
    "passes_email_checks (email ?q1)" "email ?q1 \<notin> set (map email [?q0])"
    using ok by simp_all
  have b: "filter (\<lambda>r. email r = Some ''a@b.com'') (rows (transform_customers ?dq)) = []"
    using B[OF q] ok by (simp add: drop_duplicates_def)
  from a1 a2 b show ?thesis by (intro conjI)
qed

end
